theory Spec2Isabelle
  imports Main "HOL-Library.Finite_Map" "HOL-Library.List_Lexorder" "HOL-Library.Char_ord"
begin

section \<open>Data model\<close>

text \<open>
  The in-memory register keeps a nested Go map
  \<^verbatim>\<open>domain -> service name -> version -> *record\<close>.
  Go maps are finite, so every \<^verbatim>\<open>map[string]T\<close> is a finite map
  \<^typ>\<open>(string, 'v) fmap\<close>: \<^verbatim>\<open>m[k]\<close> is \<^term>\<open>fmlookup m k\<close>,
  \<^verbatim>\<open>m[k] = v\<close> is \<^term>\<open>fmupd k v m\<close>, \<^verbatim>\<open>delete(m, k)\<close> is
  \<^term>\<open>fmdrop k m\<close> and \<^verbatim>\<open>len(m)\<close> is the cardinality of the key set.

  Pointers are modelled by value. Where the source mutates an object that the
  store reaches through a pointer, the model writes the changed value back at
  the place the pointer is stored. A nil \<^verbatim>\<open>map[string]string\<close> reads like
  the empty map; only the metadata of a \<^verbatim>\<open>register.Service\<close> keeps the
  difference (the source tests it against nil), as an \<^typ>\<open>'a option\<close>.

  \<^verbatim>\<open>time.Time\<close> and \<^verbatim>\<open>time.Duration\<close> are integers (nanoseconds); the clock
  readings \<^verbatim>\<open>time.Now()\<close> made during one call are one instant \<open>now\<close>, an
  argument of the operation.
\<close>

type_synonym metadata = "(string, string) fmap"

definition len :: "('k, 'v) fmap \<Rightarrow> nat" where
  "len m = fcard (fmdom m)"

text \<open>
  Modelled from the spec: the types of the imported package \<^verbatim>\<open>register\<close>,
  whose declarations are not part of the sources, with the fields that the
  source reads and writes. The elements of \<^verbatim>\<open>s.Nodes\<close> and \<^verbatim>\<open>s.Endpoints\<close> are
  pointers in the source and values here; a request holds no nil element.
\<close>

datatype Value = Value (VName: string) (VType: string) (Values: "Value list")

definition zeroValue :: Value where
  "zeroValue = Value [] [] []"

record Endpoint =
  EName :: string
  Request :: "Value option"
  Response :: "Value option"
  EMetadata :: metadata

record Node =
  Id' :: string
  Address :: string
  NodeMetadata :: metadata

record Service =
  Name :: string
  Version :: string
  Metadata :: "metadata option"
  Endpoints :: "Endpoint list"
  Nodes :: "Node list"

text \<open>\<^verbatim>\<open>register.Result\<close>: the field \<^verbatim>\<open>Service\<close> is a pointer and may be nil.\<close>

record Result =
  Action :: string
  Service :: "Service option"

text \<open>
  \<^verbatim>\<open>register.ErrNotFound\<close> is a sentinel the source compares against; every
  other error value is an \<^verbatim>\<open>errors.New(msg)\<close>.
\<close>

datatype error = ErrNotFound | ErrorsNew string

text \<open>
  Modelled from the spec: the two domain constants of the imported package
  \<^verbatim>\<open>register\<close>, whose declarations are not part of the sources: the reserved
  wildcard value that means "all domains" and the well-known default domain.
\<close>

definition WildcardDomain :: string where
  "WildcardDomain = ''*''"

definition DefaultDomain :: string where
  "DefaultDomain = ''micro''"

text \<open>The types of package \<^verbatim>\<open>memory\<close>: \<^verbatim>\<open>node\<close>, \<^verbatim>\<open>record\<close>, \<^verbatim>\<open>services\<close>, \<^verbatim>\<open>memory\<close>.\<close>

record node =
  Node :: Node
  TTL :: int
  LastSeen :: int

record srecord =
  RName :: string
  RVersion :: string
  RMetadata :: metadata
  RNodes :: "(string, node) fmap"
  REndpoints :: "Endpoint list"

type_synonym services = "(string, (string, srecord) fmap) fmap"

record memory =
  records :: "(string, services) fmap"

text \<open>
  What a call of \<^verbatim>\<open>Register\<close> or \<^verbatim>\<open>Deregister\<close> leaves behind: the returned
  error (\<open>None\<close> is nil), the register, the caller's service (the calls write
  into it through the pointer they are given) and the results handed to
  \<^verbatim>\<open>go m.sendEvent(...)\<close>, in the order of the calls.
\<close>

record effect =
  err :: "error option"
  mem :: memory
  svc :: Service
  events :: "Result list"

section \<open>Conversions between services and records\<close>

text \<open>
  \<^verbatim>\<open>serviceToRecord\<close> copies the service metadata and keeps, for every node of
  the request, the pointer to that node with the TTL and the current time; a
  later node with the same id replaces an earlier one. The stored value is the
  node as the request gives it.
\<close>

definition serviceToRecord :: "Service \<Rightarrow> int \<Rightarrow> int \<Rightarrow> srecord" where
  "serviceToRecord s ttl now =
     \<lparr> RName = Name s,
       RVersion = Version s,
       RMetadata = (case Metadata s of None \<Rightarrow> fmempty | Some md \<Rightarrow> md),
       RNodes = fold (\<lambda>n nodes. fmupd (Id' n) \<lparr>Node = n, TTL = ttl, LastSeen = now\<rparr> nodes)
                  (Nodes s) fmempty,
       REndpoints = Endpoints s \<rparr>"

section \<open>Register\<close>

text \<open>
  Both operations start by writing the domain into the caller's metadata:
  a nil map is replaced by a fresh one, a present map is updated in place.
\<close>

definition setDomain :: "Service \<Rightarrow> string \<Rightarrow> Service" where
  "setDomain s domain =
     (case Metadata s of
        None \<Rightarrow> s\<lparr>Metadata := Some (fmupd ''domain'' domain fmempty)\<rparr>
      | Some md \<Rightarrow> s\<lparr>Metadata := Some (fmupd ''domain'' domain md)\<rparr>)"

text \<open>The node stored for a request node that is not yet in the node map.\<close>

definition newNode :: "string \<Rightarrow> int \<Rightarrow> int \<Rightarrow> Node \<Rightarrow> node" where
  "newNode domain ttl now n =
     \<lparr> Node = \<lparr> Id' = Id' n, Address = Address n,
                NodeMetadata = fmupd ''domain'' domain (NodeMetadata n) \<rparr>,
       TTL = ttl, LastSeen = now \<rparr>"

text \<open>The first loop over \<^verbatim>\<open>s.Nodes\<close>; the flag is \<^verbatim>\<open>addedNodes\<close>.\<close>

fun addNodes ::
  "string \<Rightarrow> int \<Rightarrow> int \<Rightarrow> Node list \<Rightarrow> (string, node) fmap \<times> bool \<Rightarrow> (string, node) fmap \<times> bool"
where
  "addNodes domain ttl now [] (nodes, added) = (nodes, added)"
| "addNodes domain ttl now (n # ns) (nodes, added) =
     (if Id' n |\<in>| fmdom nodes then addNodes domain ttl now ns (nodes, added)
      else addNodes domain ttl now ns (fmupd (Id' n) (newNode domain ttl now n) nodes, True))"

text \<open>
  The second loop, run when no node was added. \<^verbatim>\<open>Nodes[n.Id].TTL = ...\<close>
  dereferences the pointer found under the id: \<open>None\<close> is the nil-pointer panic
  of an id that is not in the map.
\<close>

fun refreshNodes :: "int \<Rightarrow> int \<Rightarrow> Node list \<Rightarrow> (string, node) fmap \<Rightarrow> (string, node) fmap option" where
  "refreshNodes ttl now [] nodes = Some nodes"
| "refreshNodes ttl now (n # ns) nodes =
     (case fmlookup nodes (Id' n) of
        None \<Rightarrow> None
      | Some x \<Rightarrow> refreshNodes ttl now ns (fmupd (Id' n) (x\<lparr>TTL := ttl, LastSeen := now\<rparr>) nodes))"

text \<open>
  \<^verbatim>\<open>Register\<close>, with \<open>domain\<close> and \<open>ttl\<close> the fields of the register options.
  \<open>None\<close> is a run-time panic (an index into a nil map or a nil pointer).
\<close>

definition Register :: "memory \<Rightarrow> int \<Rightarrow> Service \<Rightarrow> string \<Rightarrow> int \<Rightarrow> effect option" where
  "Register m now s0 domain ttl =
     (let srvs0 = (case fmlookup (records m) domain of None \<Rightarrow> fmempty | Some x \<Rightarrow> x);
          s = setDomain s0 domain;
          r = serviceToRecord s ttl now;
          srvs1 = (if Name s |\<in>| fmdom srvs0 then srvs0 else fmupd (Name s) fmempty srvs0)
      in case fmlookup srvs1 (Name s) of
           None \<Rightarrow> None
         | Some versions0 \<Rightarrow>
            (let created = (Version s |\<notin>| fmdom versions0);
                 versions1 = (if created then fmupd (Version s) r versions0 else versions0);
                 evs1 = (if created then [\<lparr>Action = ''create'', Service = Some s\<rparr>] else [])
             in case fmlookup versions1 (Version s) of
                  None \<Rightarrow> None
                | Some rec \<Rightarrow>
                   (let (nodes1, addedNodes) = addNodes domain ttl now (Nodes s) (RNodes rec, False)
                    in if addedNodes then
                         Some \<lparr> err = None,
                                mem = m\<lparr>records := fmupd domain
                                        (fmupd (Name s)
                                           (fmupd (Version s) (rec\<lparr>RNodes := nodes1\<rparr>) versions1) srvs1)
                                        (records m)\<rparr>,
                                svc = s,
                                events = evs1 @ [\<lparr>Action = ''update'', Service = Some s\<rparr>] \<rparr>
                       else
                         (case refreshNodes ttl now (Nodes s) nodes1 of
                            None \<Rightarrow> None
                          | Some nodes2 \<Rightarrow>
                              Some \<lparr> err = None,
                                     mem = m\<lparr>records := fmupd domain
                                             (fmupd (Name s)
                                                (fmupd (Version s) (rec\<lparr>RNodes := nodes2\<rparr>) versions1) srvs1)
                                             (records m)\<rparr>,
                                     svc = s,
                                     events = evs1 \<rparr>))))"

section \<open>Deregister\<close>

text \<open>The loop over \<^verbatim>\<open>s.Nodes\<close> that deletes the listed ids from the node map.\<close>

fun removeNodes :: "Node list \<Rightarrow> (string, node) fmap \<Rightarrow> (string, node) fmap" where
  "removeNodes [] nodes = nodes"
| "removeNodes (n # ns) nodes =
     removeNodes ns (if Id' n |\<in>| fmdom nodes then fmdrop (Id' n) nodes else nodes)"

text \<open>
  \<^verbatim>\<open>Deregister\<close>. The node map is reached through the pointer \<^verbatim>\<open>version\<close>
  that the store holds, so the deletions of the loop are in the store before
  any of the three exits is taken (\<open>services1\<close>).
\<close>

definition Deregister :: "memory \<Rightarrow> Service \<Rightarrow> string \<Rightarrow> effect" where
  "Deregister m s0 domain =
     (let s = setDomain s0 domain;
          unchanged = \<lparr> err = None, mem = m, svc = s, events = [] \<rparr>
      in case fmlookup (records m) domain of
           None \<Rightarrow> unchanged
         | Some services0 \<Rightarrow>
             (case fmlookup services0 (Name s) of
                None \<Rightarrow> unchanged
              | Some versions0 \<Rightarrow>
                  (case fmlookup versions0 (Version s) of
                     None \<Rightarrow> unchanged
                   | Some version0 \<Rightarrow>
                       let version = version0\<lparr>RNodes := removeNodes (Nodes s) (RNodes version0)\<rparr>;
                           versions = fmupd (Version s) version versions0;
                           services1 = fmupd (Name s) versions services0
                       in if len (RNodes version) > 0 then
                            \<lparr> err = None,
                              mem = m\<lparr>records := fmupd domain services1 (records m)\<rparr>,
                              svc = s,
                              events = [\<lparr>Action = ''update'', Service = Some s\<rparr>] \<rparr>
                          else if len versions = 1 then
                            \<lparr> err = None,
                              mem = m\<lparr>records := fmupd domain (fmdrop (Name s) services1) (records m)\<rparr>,
                              svc = s,
                              events = [\<lparr>Action = ''delete'', Service = Some s\<rparr>] \<rparr>
                          else
                            \<lparr> err = None,
                              mem = m\<lparr>records := fmupd domain
                                      (fmupd (Name s) (fmdrop (Version s) versions) services1)
                                      (records m)\<rparr>,
                              svc = s,
                              events = [\<lparr>Action = ''delete'', Service = Some s\<rparr>] \<rparr>)))"

section \<open>Reading the store\<close>

text \<open>
  A \<^verbatim>\<open>range\<close> over a Go map visits the keys in an order the language leaves
  open. The order is an argument \<open>ord\<close> of every function that ranges over a
  map: it lists the keys of each key set. \<open>rangeMap\<close> is the sequence of
  entries such a loop sees.
\<close>

type_synonym rangeOrder = "string fset \<Rightarrow> string list"

definition rangeMap :: "rangeOrder \<Rightarrow> (string, 'v) fmap \<Rightarrow> (string \<times> 'v) list" where
  "rangeMap ord m = List.map_filter (\<lambda>k. map_option (Pair k) (fmlookup m k)) (ord (fmdom m))"

definition validOrder :: "rangeOrder \<Rightarrow> bool" where
  "validOrder ord = (\<forall>S. distinct (ord S) \<and> fset_of_list (ord S) = S)"

definition copyEndpoint :: "Endpoint \<Rightarrow> Endpoint" where
  "copyEndpoint e =
     \<lparr> EName = EName e,
       Request = Some (case Request e of None \<Rightarrow> zeroValue | Some v \<Rightarrow> v),
       Response = Some (case Response e of None \<Rightarrow> zeroValue | Some v \<Rightarrow> v),
       EMetadata = EMetadata e \<rparr>"

definition recordToService :: "rangeOrder \<Rightarrow> srecord \<Rightarrow> string \<Rightarrow> Service" where
  "recordToService ord r domain =
     \<lparr> Name = RName r,
       Version = RVersion r,
       Metadata = Some (fmupd ''domain'' domain (RMetadata r)),
       Endpoints = map copyEndpoint (REndpoints r),
       Nodes = map (\<lambda>(k, n). \<lparr> Id' = Id' (Node n), Address = Address (Node n),
                                NodeMetadata = NodeMetadata (Node n) \<rparr>)
                 (rangeMap ord (RNodes r)) \<rparr>"

text \<open>
  The loop of the wildcard branch of \<^verbatim>\<open>LookupService\<close> over the domains,
  with \<open>look\<close> the recursive call for one domain and \<open>services\<close> the slice
  built so far. \<open>None\<close>: the call for a domain does not return.
\<close>

fun lookupDomains ::
  "(string \<Rightarrow> (error + Service list) option) \<Rightarrow> string list \<Rightarrow> Service list \<Rightarrow> (error + Service list) option"
where
  "lookupDomains look [] services =
     Some (if length services = 0 then Inl ErrNotFound else Inr services)"
| "lookupDomains look (domain # domains) services =
     (case look domain of
        None \<Rightarrow> None
      | Some (Inl e) \<Rightarrow>
          if e = ErrNotFound then lookupDomains look domains services else Some (Inl e)
      | Some (Inr srvs) \<Rightarrow> lookupDomains look domains (services @ srvs))"

text \<open>
  \<^verbatim>\<open>LookupService\<close> calls itself for every stored domain when it is asked for
  the wildcard domain. The first argument bounds the depth of these calls;
  \<open>None\<close> means that the bound was too small.
\<close>

primrec LookupService ::
  "nat \<Rightarrow> rangeOrder \<Rightarrow> memory \<Rightarrow> string \<Rightarrow> string \<Rightarrow> (error + Service list) option"
where
  "LookupService 0 ord m name domain = None"
| "LookupService (Suc fuel) ord m name domain =
     (if domain = WildcardDomain then
        lookupDomains (\<lambda>domain. LookupService fuel ord m name domain)
          (map fst (rangeMap ord (records m))) []
      else
        Some (case fmlookup (records m) domain of
                None \<Rightarrow> Inl ErrNotFound
              | Some services \<Rightarrow>
                  (case fmlookup services name of
                     None \<Rightarrow> Inl ErrNotFound
                   | Some versions \<Rightarrow>
                       if len versions = 0 then Inl ErrNotFound
                       else Inr (map (\<lambda>(k, r). recordToService ord r domain)
                                   (rangeMap ord versions)))))"

text \<open>The loop of the wildcard branch of \<^verbatim>\<open>ListServices\<close>.\<close>

fun listDomains ::
  "(string \<Rightarrow> (error + Service list) option) \<Rightarrow> string list \<Rightarrow> Service list \<Rightarrow> (error + Service list) option"
where
  "listDomains list [] services = Some (Inr services)"
| "listDomains list (domain # domains) services =
     (case list domain of
        None \<Rightarrow> None
      | Some (Inl e) \<Rightarrow> Some (Inl e)
      | Some (Inr srvs) \<Rightarrow> listDomains list domains (services @ srvs))"

text \<open>
  \<^verbatim>\<open>ListServices\<close>. In the branch for one domain the source ranges over
  \<^verbatim>\<open>services\<close>, the map from service names to versions, and calls the key
  \<^verbatim>\<open>domain\<close>; the bound variables keep the names of the source.
\<close>

primrec ListServices ::
  "nat \<Rightarrow> rangeOrder \<Rightarrow> memory \<Rightarrow> string \<Rightarrow> (error + Service list) option"
where
  "ListServices 0 ord m domain = None"
| "ListServices (Suc fuel) ord m domain =
     (if domain = WildcardDomain then
        listDomains (\<lambda>domain. ListServices fuel ord m domain)
          (map fst (rangeMap ord (records m))) []
      else
        Some (Inr (case fmlookup (records m) domain of
                     None \<Rightarrow> []
                   | Some services \<Rightarrow>
                       concat (map (\<lambda>(domain, service).
                                      map (\<lambda>(k, version). recordToService ord version domain)
                                        (rangeMap ord service))
                                 (rangeMap ord services)))))"

section \<open>The TTL sweep\<close>

text \<open>
  One tick of \<^verbatim>\<open>ttlPrune\<close>, at the instant \<open>now\<close>: in every record of every
  service of every domain, every node with \<^verbatim>\<open>n.TTL != 0 && time.Since(n.LastSeen) > n.TTL\<close>
  is deleted from the node map. The tick calls \<^verbatim>\<open>sendEvent\<close> nowhere; the
  second component is the list of results it hands to it.
\<close>

definition expired :: "int \<Rightarrow> node \<Rightarrow> bool" where
  "expired now n = (TTL n \<noteq> 0 \<and> now - LastSeen n > TTL n)"

definition pruneNodes :: "int \<Rightarrow> (string, node) fmap \<Rightarrow> (string, node) fmap" where
  "pruneNodes now nodes =
     fmfilter (\<lambda>i. case fmlookup nodes i of None \<Rightarrow> False | Some n \<Rightarrow> \<not> expired now n) nodes"

definition ttlPruneTick :: "int \<Rightarrow> memory \<Rightarrow> memory \<times> Result list" where
  "ttlPruneTick now m =
     (m\<lparr>records :=
          fmmap (\<lambda>services.
            fmmap (\<lambda>versions.
              fmmap (\<lambda>record. record\<lparr>RNodes := pruneNodes now (RNodes record)\<rparr>) versions)
            services)
          (records m)\<rparr>, [])"

section \<open>Watcher\<close>

text \<open>
  A watcher: \<open>exit\<close> tells whether the channel \<^verbatim>\<open>exit\<close> is closed (nothing
  is ever sent on it), and \<open>res\<close> lists the results that senders are
  offering on the unbuffered channel \<^verbatim>\<open>res\<close>, oldest first.
\<close>

record WatchOptions =
  WService :: string
  WDomain :: string

record Watcher =
  id' :: string
  wo :: WatchOptions
  res :: "Result list"
  exit :: bool

definition eventDomain :: "Service \<Rightarrow> string" where
  "eventDomain s =
     (case Metadata s of
        None \<Rightarrow> DefaultDomain
      | Some md \<Rightarrow>
          (case fmlookup md ''domain'' of
             None \<Rightarrow> DefaultDomain
           | Some v \<Rightarrow> if length v > 0 then v else DefaultDomain))"

text \<open>The filter of \<^verbatim>\<open>Next\<close>: whether a received result is returned.\<close>

definition passes :: "WatchOptions \<Rightarrow> Result \<Rightarrow> bool" where
  "passes opts r =
     (case Service r of
        None \<Rightarrow> False
      | Some s \<Rightarrow>
          if length (WService opts) > 0 \<and> WService opts \<noteq> Name s then False
          else WDomain opts = WildcardDomain \<or> WDomain opts = eventDomain s)"

text \<open>
  \<^verbatim>\<open>Next\<close> loops over a \<^verbatim>\<open>select\<close> with two cases. The receive from
  \<^verbatim>\<open>exit\<close> can proceed when the channel is closed, the receive from \<^verbatim>\<open>res\<close>
  when a sender is waiting; when both can, Go chooses one of them at random, so
  \<open>Next w (out, w')\<close> is a relation: the call on \<open>w\<close> may return \<open>out\<close> and
  leave \<open>w'\<close>. When neither can proceed the call blocks and has no outcome.
\<close>

inductive Next :: "Watcher \<Rightarrow> (error + Result) \<times> Watcher \<Rightarrow> bool" where
  stopped: "exit w \<Longrightarrow> Next w (Inl (ErrorsNew ''watcher stopped''), w)"
| deliver: "res w = r # rs \<Longrightarrow> passes (wo w) r \<Longrightarrow> Next w (Inr r, w\<lparr>res := rs\<rparr>)"
| skip: "res w = r # rs \<Longrightarrow> \<not> passes (wo w) r \<Longrightarrow> Next (w\<lparr>res := rs\<rparr>) out \<Longrightarrow> Next w out"

code_pred Next .

text \<open>\<^verbatim>\<open>close(ch)\<close> on a channel that is already closed panics (\<open>None\<close>).\<close>

definition closeChan :: "bool \<Rightarrow> bool option" where
  "closeChan closed = (if closed then None else Some True)"

text \<open>
  \<^verbatim>\<open>Stop\<close> is a \<^verbatim>\<open>select\<close> with a default case followed by
  \<^verbatim>\<open>close(m.exit)\<close>, and nothing keeps another call from running between
  the two. A call is therefore two steps: at \<open>AtSelect\<close> the receive from
  \<^verbatim>\<open>exit\<close> is tried, and the call is over when the channel is closed; at
  \<open>AtClose\<close> the channel is closed. \<open>None\<close> is the panic of closing a
  closed channel.
\<close>

datatype stopPc = AtSelect | AtClose | Returned

definition stopStep :: "Watcher \<Rightarrow> stopPc \<Rightarrow> (Watcher \<times> stopPc) option" where
  "stopStep w pc =
     (case pc of
        AtSelect \<Rightarrow> Some (w, if exit w then Returned else AtClose)
      | AtClose \<Rightarrow>
          (case closeChan (exit w) of
             None \<Rightarrow> None
           | Some c \<Rightarrow> Some (w\<lparr>exit := c\<rparr>, Returned))
      | Returned \<Rightarrow> Some (w, Returned))"

text \<open>One call of \<^verbatim>\<open>Stop\<close> that runs alone: its two steps, one after the other.\<close>

definition Stop :: "Watcher \<Rightarrow> Watcher option" where
  "Stop w =
     (case stopStep w AtSelect of
        None \<Rightarrow> None
      | Some (w1, pc1) \<Rightarrow>
          (case stopStep w1 pc1 of
             None \<Rightarrow> None
           | Some (w2, pc2) \<Rightarrow> Some w2))"

text \<open>
  Two calls of \<^verbatim>\<open>Stop\<close> on the same watcher, run as the schedule says:
  \<open>True\<close> lets the first call take its next step, \<open>False\<close> the second.
\<close>

primrec stopTwo ::
  "bool list \<Rightarrow> Watcher \<Rightarrow> stopPc \<Rightarrow> stopPc \<Rightarrow> (Watcher \<times> stopPc \<times> stopPc) option"
where
  "stopTwo [] w p q = Some (w, p, q)"
| "stopTwo (b # bs) w p q =
     (if b then
        (case stopStep w p of
           None \<Rightarrow> None
         | Some (w', p') \<Rightarrow> stopTwo bs w' p' q)
      else
        (case stopStep w q of
           None \<Rightarrow> None
         | Some (w', q') \<Rightarrow> stopTwo bs w' p q'))"

text \<open>
  What \<^verbatim>\<open>sendEvent\<close> does for one watcher of its snapshot: a \<^verbatim>\<open>select\<close>
  on \<^verbatim>\<open>exit\<close> with a default case, in which the result is sent on
  \<^verbatim>\<open>res\<close>. The send waits until \<^verbatim>\<open>Next\<close> receives or the timeout passes.
  \<open>sendOffer\<close> is the watcher while the sender waits; \<open>None\<close>: the channel
  \<^verbatim>\<open>exit\<close> was closed at the check and nothing is sent.
\<close>

definition sendOffer :: "Watcher \<Rightarrow> Result \<Rightarrow> Watcher option" where
  "sendOffer w r = (if exit w then None else Some (w\<lparr>res := res w @ [r]\<rparr>))"

section \<open>Observations used in the statements\<close>

text \<open>\<^verbatim>\<open>m.records[domain][name][version]\<close> and a node of it, if present.\<close>

definition lookupRecord :: "memory \<Rightarrow> string \<Rightarrow> string \<Rightarrow> string \<Rightarrow> srecord option" where
  "lookupRecord m domain name version =
     (case fmlookup (records m) domain of
        None \<Rightarrow> None
      | Some srvs \<Rightarrow>
          (case fmlookup srvs name of None \<Rightarrow> None | Some versions \<Rightarrow> fmlookup versions version))"

definition lookupNode :: "memory \<Rightarrow> string \<Rightarrow> string \<Rightarrow> string \<Rightarrow> string \<Rightarrow> node option" where
  "lookupNode m domain name version i =
     (case lookupRecord m domain name version of None \<Rightarrow> None | Some r \<Rightarrow> fmlookup (RNodes r) i)"

text \<open>A stored node after a refresh of its TTL and last-seen time.\<close>

definition refreshed :: "int \<Rightarrow> int \<Rightarrow> node \<Rightarrow> node" where
  "refreshed ttl now x = x\<lparr>TTL := ttl, LastSeen := now\<rparr>"

text \<open>The TTL and last-seen time of a stored node after a call, if the call returns and the node is stored.\<close>

definition nodeTiming ::
  "effect option \<Rightarrow> string \<Rightarrow> string \<Rightarrow> string \<Rightarrow> string \<Rightarrow> (int \<times> int) option" where
  "nodeTiming e domain name version i =
     (case e of
        None \<Rightarrow> None
      | Some e' \<Rightarrow>
          (case lookupNode (mem e') domain name version i of
             None \<Rightarrow> None
           | Some x \<Rightarrow> Some (TTL x, LastSeen x)))"

text \<open>
  What the wildcard branch of \<open>LookupService\<close> makes of the results of the
  calls for the single domains, in the words of the specification: a result
  that is "not found" is skipped, the first other error is returned, the
  services found are concatenated, and "not found" is returned when there are
  none.
\<close>

fun otherError :: "error + 'a \<Rightarrow> error option" where
  "otherError (Inl e) = (if e = ErrNotFound then None else Some e)"
| "otherError (Inr x) = None"

fun found :: "error + Service list \<Rightarrow> Service list" where
  "found (Inl e) = []"
| "found (Inr srvs) = srvs"

definition fanOut :: "(error + Service list) list \<Rightarrow> error + Service list" where
  "fanOut rs =
     (case List.map_filter otherError rs of
        e # es \<Rightarrow> Inl e
      | [] \<Rightarrow> if concat (map found rs) = [] then Inl ErrNotFound else Inr (concat (map found rs)))"

section \<open>Example data\<close>

text \<open>
  A service \<open>foo\<close> with one node, the store that registering it in domain
  \<open>d1\<close> at time 0 with TTL 5 produces from the empty register, and a second
  request for the same service with one more node.
\<close>

definition exNode1 :: Node where
  "exNode1 = \<lparr> Id' = ''n1'', Address = ''10.0.0.1:80'', NodeMetadata = fmempty \<rparr>"

definition exNode2 :: Node where
  "exNode2 = \<lparr> Id' = ''n2'', Address = ''10.0.0.2:80'', NodeMetadata = fmempty \<rparr>"

definition exService :: Service where
  "exService =
     \<lparr> Name = ''foo'', Version = ''1.0.0'', Metadata = None, Endpoints = [], Nodes = [exNode1] \<rparr>"

definition exService2 :: Service where
  "exService2 = exService\<lparr>Nodes := [exNode1, exNode2]\<rparr>"

definition exEmpty :: memory where
  "exEmpty = \<lparr> records = fmempty \<rparr>"

definition exRecord :: srecord where
  "exRecord =
     \<lparr> RName = ''foo'', RVersion = ''1.0.0'', RMetadata = fmupd ''domain'' ''d1'' fmempty,
       RNodes = fmupd ''n1'' \<lparr>Node = exNode1, TTL = 5, LastSeen = 0\<rparr> fmempty,
       REndpoints = [] \<rparr>"

definition exStore :: memory where
  "exStore =
     \<lparr> records = fmupd ''d1'' (fmupd ''foo'' (fmupd ''1.0.0'' exRecord fmempty) fmempty) fmempty \<rparr>"

text \<open>The store that registering \<open>exService\<close> under the wildcard value as its domain produces.\<close>

definition exWild :: memory where
  "exWild =
     \<lparr> records = fmupd WildcardDomain
         (fmupd ''foo''
            (fmupd ''1.0.0'' (exRecord\<lparr>RMetadata := fmupd ''domain'' WildcardDomain fmempty\<rparr>) fmempty)
            fmempty)
         fmempty \<rparr>"

text \<open>
  A watcher for all services and domains to which a sender offers one result,
  and the same watcher with nothing offered.
\<close>

definition exResult :: Result where
  "exResult = \<lparr> Action = ''create'', Service = Some (setDomain exService ''d1'') \<rparr>"

definition exWatcher :: Watcher where
  "exWatcher =
     \<lparr> id' = ''w1'', wo = \<lparr> WService = [], WDomain = WildcardDomain \<rparr>, res = [exResult],
       exit = False \<rparr>"

definition exIdle :: Watcher where
  "exIdle = exWatcher\<lparr>res := []\<rparr>"

section \<open>Finite maps and the node loops\<close>

lemma fmupd_same: "fmlookup m k = Some v \<Longrightarrow> fmupd k v m = m"
  by (rule fmap_ext) auto

lemma len_0_iff: "len m = 0 \<longleftrightarrow> m = fmempty"
proof
  assume "len m = 0"
  then have "fmdom m = {||}" by (simp add: len_def)
  then show "m = fmempty" by (metis fmrestrict_fset_dom fmrestrict_fset_null)
next
  assume "m = fmempty"
  then show "len m = 0" by (simp add: len_def)
qed

lemma setDomain_simps [simp]:
  "Name (setDomain s d) = Name s"
  "Version (setDomain s d) = Version s"
  "Nodes (setDomain s d) = Nodes s"
  "Endpoints (setDomain s d) = Endpoints s"
  "Metadata (setDomain s d) =
     Some (fmupd ''domain'' d (case Metadata s of None \<Rightarrow> fmempty | Some md \<Rightarrow> md))"
  by (simp_all add: setDomain_def split: option.splits)

lemma setDomain_eq:
  "setDomain s d =
     s\<lparr>Metadata := Some (fmupd ''domain'' d (case Metadata s of None \<Rightarrow> fmempty | Some md \<Rightarrow> md))\<rparr>"
  by (simp add: setDomain_def split: option.splits)

lemma addNodes_lookup:
  "fmlookup (fst (addNodes d ttl now ns (nodes, a))) i =
     (case fmlookup nodes i of
        Some x \<Rightarrow> Some x
      | None \<Rightarrow> map_option (newNode d ttl now) (find (\<lambda>n. Id' n = i) ns))"
proof (induction ns arbitrary: nodes a)
  case Nil
  then show ?case by (simp split: option.splits)
next
  case (Cons n ns)
  then show ?case
    by (auto simp: fmdom_notD fmdom_notI split: option.splits)
qed

lemma addNodes_added:
  "snd (addNodes d ttl now ns (nodes, a)) = (a \<or> (\<exists>n\<in>set ns. Id' n |\<notin>| fmdom nodes))"
proof (induction ns arbitrary: nodes a)
  case Nil
  then show ?case by simp
next
  case (Cons n ns)
  then show ?case by auto
qed

lemma addNodes_none:
  "\<forall>n\<in>set ns. Id' n |\<in>| fmdom nodes \<Longrightarrow> addNodes d ttl now ns (nodes, a) = (nodes, a)"
  by (induction ns) auto

lemma refreshNodes_Some:
  "\<forall>n\<in>set ns. Id' n |\<in>| fmdom nodes \<Longrightarrow>
   \<exists>nodes'. refreshNodes ttl now ns nodes = Some nodes' \<and>
     (\<forall>i. fmlookup nodes' i =
        (if i \<in> Id' ` set ns then map_option (refreshed ttl now) (fmlookup nodes i)
         else fmlookup nodes i))"
proof (induction ns arbitrary: nodes)
  case Nil
  then show ?case by simp
next
  case (Cons n ns)
  from Cons.prems obtain x where x: "fmlookup nodes (Id' n) = Some x"
    by (auto simp: fmlookup_dom_iff)
  let ?nodes = "fmupd (Id' n) (x\<lparr>TTL := ttl, LastSeen := now\<rparr>) nodes"
  have "\<forall>n\<in>set ns. Id' n |\<in>| fmdom ?nodes" using Cons.prems by auto
  from Cons.IH[OF this] obtain nodes' where
    r: "refreshNodes ttl now ns ?nodes = Some nodes'" and
    l: "\<And>i. fmlookup nodes' i =
        (if i \<in> Id' ` set ns then map_option (refreshed ttl now) (fmlookup ?nodes i)
         else fmlookup ?nodes i)" by blast
  have "refreshNodes ttl now (n # ns) nodes = Some nodes'" using x r by simp
  moreover have "\<forall>i. fmlookup nodes' i =
        (if i \<in> Id' ` set (n # ns) then map_option (refreshed ttl now) (fmlookup nodes i)
         else fmlookup nodes i)"
    using x by (auto simp: l refreshed_def)
  ultimately show ?case by blast
qed

lemma refreshNodes_fixed:
  "\<forall>n\<in>set ns. \<exists>x. fmlookup nodes (Id' n) = Some x \<and> TTL x = ttl \<and> LastSeen x = now \<Longrightarrow>
   refreshNodes ttl now ns nodes = Some nodes"
proof (induction ns)
  case Nil
  then show ?case by simp
next
  case (Cons n ns)
  then obtain x where x: "fmlookup nodes (Id' n) = Some x" "TTL x = ttl" "LastSeen x = now"
    by auto
  then have "x\<lparr>TTL := ttl, LastSeen := now\<rparr> = x" by simp
  with x Cons show ?case by (simp add: fmupd_same)
qed

lemma find_append_cases:
  "find P (xs @ ys) = (case find P xs of None \<Rightarrow> find P ys | Some x \<Rightarrow> Some x)"
  by (induction xs) auto

lemma toRecord_nodes_lookup:
  "fmlookup (fold (\<lambda>n nodes. fmupd (Id' n) \<lparr>Node = n, TTL = ttl, LastSeen = now\<rparr> nodes) ns acc) i =
     (case find (\<lambda>n. Id' n = i) (rev ns) of
        Some n \<Rightarrow> Some \<lparr>Node = n, TTL = ttl, LastSeen = now\<rparr>
      | None \<Rightarrow> fmlookup acc i)"
proof (induction ns arbitrary: acc)
  case Nil
  then show ?case by simp
next
  case (Cons n ns)
  then show ?case by (auto simp: find_append_cases split: option.splits)
qed

lemma find_in_set:
  "n \<in> set ns \<Longrightarrow> \<exists>n'. find (\<lambda>k. Id' k = Id' n) ns = Some n' \<and> n' \<in> set ns \<and> Id' n' = Id' n"
  by (induction ns) auto

lemma serviceToRecord_nodes:
  assumes "n \<in> set (Nodes s)"
  shows "\<exists>x. fmlookup (RNodes (serviceToRecord s ttl now)) (Id' n) = Some x \<and>
              TTL x = ttl \<and> LastSeen x = now"
proof -
  from assms have "n \<in> set (rev (Nodes s))" by simp
  from find_in_set[OF this] obtain n' where
    "find (\<lambda>k. Id' k = Id' n) (rev (Nodes s)) = Some n'" by blast
  then show ?thesis by (simp add: serviceToRecord_def toRecord_nodes_lookup)
qed

section \<open>Properties of Register\<close>

lemma Register_new:
  assumes "lookupRecord m d (Name s) (Version s) = None"
  shows "Register m now s d ttl =
     Some \<lparr> err = None,
            mem = m\<lparr>records := fmupd d
                     (fmupd (Name s)
                        (fmupd (Version s) (serviceToRecord (setDomain s d) ttl now)
                           (case fmlookup (case fmlookup (records m) d of None \<Rightarrow> fmempty | Some x \<Rightarrow> x) (Name s) of
                              None \<Rightarrow> fmempty | Some v \<Rightarrow> v))
                        (case fmlookup (records m) d of None \<Rightarrow> fmempty | Some x \<Rightarrow> x))
                     (records m)\<rparr>,
            svc = setDomain s d,
            events = [\<lparr>Action = ''create'', Service = Some (setDomain s d)\<rparr>] \<rparr>"
proof -
  let ?s = "setDomain s d"
  let ?r = "serviceToRecord ?s ttl now"
  have st: "\<exists>x. fmlookup (RNodes ?r) (Id' n) = Some x \<and> TTL x = ttl \<and> LastSeen x = now"
    if "n \<in> set (Nodes s)" for n
    using serviceToRecord_nodes[of n ?s ttl now] that by simp
  have all: "\<forall>n\<in>set (Nodes s). Id' n |\<in>| fmdom (RNodes ?r)"
    using st by (auto simp: fmlookup_dom_iff)
  have a: "addNodes d ttl now (Nodes s) (RNodes ?r, False) = (RNodes ?r, False)"
    by (rule addNodes_none[OF all])
  have f: "refreshNodes ttl now (Nodes s) (RNodes ?r) = Some (RNodes ?r)"
    by (rule refreshNodes_fixed) (use st in blast)
  show ?thesis
  proof (cases "fmlookup (records m) d")
    case None
    then show ?thesis by (simp add: Register_def Let_def a f)
  next
    case (Some srvs)
    note dom = this
    show ?thesis
    proof (cases "fmlookup srvs (Name s)")
      case None
      then show ?thesis using dom by (simp add: Register_def Let_def a f fmdom_notI)
    next
      case (Some versions)
      then have "fmlookup versions (Version s) = None"
        using assms dom by (simp add: lookupRecord_def)
      then show ?thesis using dom Some
        by (simp add: Register_def Let_def a f fmdom_notI fmlookup_dom_iff)
    qed
  qed
qed

lemma Register_existing:
  assumes d: "fmlookup (records m) d = Some srvs"
    and n: "fmlookup srvs (Name s) = Some versions"
    and v: "fmlookup versions (Version s) = Some rec"
  shows "\<exists>nodes'.
     Register m now s d ttl =
       Some \<lparr> err = None,
              mem = m\<lparr>records := fmupd d
                       (fmupd (Name s) (fmupd (Version s) (rec\<lparr>RNodes := nodes'\<rparr>) versions) srvs)
                       (records m)\<rparr>,
              svc = setDomain s d,
              events = (if \<exists>n\<in>set (Nodes s). Id' n |\<notin>| fmdom (RNodes rec)
                        then [\<lparr>Action = ''update'', Service = Some (setDomain s d)\<rparr>] else []) \<rparr> \<and>
     (\<forall>i. fmlookup nodes' i =
        (case fmlookup (RNodes rec) i of
           None \<Rightarrow> map_option (newNode d ttl now) (find (\<lambda>n. Id' n = i) (Nodes s))
         | Some x \<Rightarrow>
             if \<exists>n\<in>set (Nodes s). Id' n |\<notin>| fmdom (RNodes rec) then Some x
             else if i \<in> Id' ` set (Nodes s) then Some (refreshed ttl now x)
             else Some x))"
proof -
  obtain nodes1 added where a: "addNodes d ttl now (Nodes s) (RNodes rec, False) = (nodes1, added)"
    by (cases "addNodes d ttl now (Nodes s) (RNodes rec, False)")
  have added: "added = (\<exists>n\<in>set (Nodes s). Id' n |\<notin>| fmdom (RNodes rec))"
    using addNodes_added[of d ttl now "Nodes s" "RNodes rec" False] a by simp
  have l1: "fmlookup nodes1 i =
     (case fmlookup (RNodes rec) i of
        Some x \<Rightarrow> Some x
      | None \<Rightarrow> map_option (newNode d ttl now) (find (\<lambda>n. Id' n = i) (Nodes s)))" for i
    using addNodes_lookup[of d ttl now "Nodes s" "RNodes rec" False i] a by simp
  have pre: "Name s |\<in>| fmdom srvs" "Version s |\<in>| fmdom versions"
    using n v by (simp_all add: fmdomI)
  show ?thesis
  proof (cases added)
    case True
    have "Register m now s d ttl =
       Some \<lparr> err = None,
              mem = m\<lparr>records := fmupd d
                       (fmupd (Name s) (fmupd (Version s) (rec\<lparr>RNodes := nodes1\<rparr>) versions) srvs)
                       (records m)\<rparr>,
              svc = setDomain s d,
              events = [\<lparr>Action = ''update'', Service = Some (setDomain s d)\<rparr>] \<rparr>"
      using d n v pre a True by (simp add: Register_def Let_def)
    moreover have "\<forall>i. fmlookup nodes1 i =
        (case fmlookup (RNodes rec) i of
           None \<Rightarrow> map_option (newNode d ttl now) (find (\<lambda>n. Id' n = i) (Nodes s))
         | Some x \<Rightarrow>
             if \<exists>n\<in>set (Nodes s). Id' n |\<notin>| fmdom (RNodes rec) then Some x
             else if i \<in> Id' ` set (Nodes s) then Some (refreshed ttl now x)
             else Some x)"
      using True added by (simp add: l1 split: option.splits)
    ultimately show ?thesis using True added by auto
  next
    case False
    then have all: "\<forall>n\<in>set (Nodes s). Id' n |\<in>| fmdom (RNodes rec)"
      using added by blast
    have n1: "nodes1 = RNodes rec"
      using addNodes_none[OF all, of d ttl now False] a by simp
    from refreshNodes_Some[OF all, of ttl now] obtain nodes2 where
      r: "refreshNodes ttl now (Nodes s) (RNodes rec) = Some nodes2" and
      l2: "\<And>i. fmlookup nodes2 i =
        (if i \<in> Id' ` set (Nodes s) then map_option (refreshed ttl now) (fmlookup (RNodes rec) i)
         else fmlookup (RNodes rec) i)" by blast
    have "Register m now s d ttl =
       Some \<lparr> err = None,
              mem = m\<lparr>records := fmupd d
                       (fmupd (Name s) (fmupd (Version s) (rec\<lparr>RNodes := nodes2\<rparr>) versions) srvs)
                       (records m)\<rparr>,
              svc = setDomain s d,
              events = [] \<rparr>"
      using d n v pre a False n1 r by (simp add: Register_def Let_def)
    moreover have "\<forall>i. fmlookup nodes2 i =
        (case fmlookup (RNodes rec) i of
           None \<Rightarrow> map_option (newNode d ttl now) (find (\<lambda>n. Id' n = i) (Nodes s))
         | Some x \<Rightarrow>
             if \<exists>n\<in>set (Nodes s). Id' n |\<notin>| fmdom (RNodes rec) then Some x
             else if i \<in> Id' ` set (Nodes s) then Some (refreshed ttl now x)
             else Some x)"
    proof
      fix i
      show "fmlookup nodes2 i =
        (case fmlookup (RNodes rec) i of
           None \<Rightarrow> map_option (newNode d ttl now) (find (\<lambda>n. Id' n = i) (Nodes s))
         | Some x \<Rightarrow>
             if \<exists>n\<in>set (Nodes s). Id' n |\<notin>| fmdom (RNodes rec) then Some x
             else if i \<in> Id' ` set (Nodes s) then Some (refreshed ttl now x)
             else Some x)"
      proof (cases "fmlookup (RNodes rec) i")
        case None
        then have "i \<notin> Id' ` set (Nodes s)" using all by (auto simp: fmdom_notI)
        then have "find (\<lambda>n. Id' n = i) (Nodes s) = None" by (auto simp: find_None_iff)
        then show ?thesis using None by (simp add: l2)
      next
        case (Some x)
        then show ?thesis using all by (auto simp: l2)
      qed
    qed
    ultimately show ?thesis using False added by auto
  qed
qed

lemma lookupRecord_SomeD:
  "lookupRecord m d n v = Some rec \<Longrightarrow>
   \<exists>srvs versions. fmlookup (records m) d = Some srvs \<and> fmlookup srvs n = Some versions \<and>
                    fmlookup versions v = Some rec"
  by (auto simp: lookupRecord_def split: option.splits)

lemma exStore_registered:
  "map_option mem (Register exEmpty 0 exService ''d1'' 5) = Some exStore"
  by code_simp

text \<open>
  C10. Every \<open>Register\<close> and every \<open>Deregister\<close> call returns and leaves the
  caller's service with the key \<open>domain\<close> of its metadata set to the domain of
  the call, in a fresh map when the metadata was nil, whatever else the call
  does; nothing else of the service changes.
\<close>

theorem caller_metadata_domain_set:
  "map_option svc (Register m now s d ttl) =
     Some (s\<lparr>Metadata :=
              Some (fmupd ''domain'' d (case Metadata s of None \<Rightarrow> fmempty | Some md \<Rightarrow> md))\<rparr>)
   \<and> svc (Deregister m s d) =
     s\<lparr>Metadata :=
          Some (fmupd ''domain'' d (case Metadata s of None \<Rightarrow> fmempty | Some md \<Rightarrow> md))\<rparr>"
proof
  show "map_option svc (Register m now s d ttl) =
     Some (s\<lparr>Metadata :=
              Some (fmupd ''domain'' d (case Metadata s of None \<Rightarrow> fmempty | Some md \<Rightarrow> md))\<rparr>)"
  proof (cases "lookupRecord m d (Name s) (Version s)")
    case None
    show ?thesis by (simp add: Register_new[OF None] setDomain_eq)
  next
    case (Some rec)
    from lookupRecord_SomeD[OF Some] obtain srvs versions where
      "fmlookup (records m) d = Some srvs" "fmlookup srvs (Name s) = Some versions"
      "fmlookup versions (Version s) = Some rec" by blast
    from Register_existing[OF this, of now ttl] obtain e where
      "Register m now s d ttl = Some e" "svc e = setDomain s d" by force
    then show ?thesis by (simp add: setDomain_eq)
  qed
next
  show "svc (Deregister m s d) =
     s\<lparr>Metadata :=
          Some (fmupd ''domain'' d (case Metadata s of None \<Rightarrow> fmempty | Some md \<Rightarrow> md))\<rparr>"
    by (simp add: Deregister_def Let_def setDomain_eq split: option.splits)
qed

theorem caller_metadata_domain_set_witness:
  "map_option svc (Register exStore 100 exService ''d2'' 9) =
     Some (exService\<lparr>Metadata := Some (fmupd ''domain'' ''d2'' fmempty)\<rparr>)
   \<and> svc (Deregister exStore exService ''d2'') =
     exService\<lparr>Metadata := Some (fmupd ''domain'' ''d2'' fmempty)\<rparr>
   \<and> mem (Deregister exStore exService ''d2'') = exStore"
  using caller_metadata_domain_set [of exStore 100 exService "''d2''" 9]
  by (simp add: exService_def Deregister_def exStore_def Let_def)

text \<open>
  C2, at a concrete input. Registering \<open>exService\<close> in domain \<open>d1\<close> in the
  empty register goes through the creation path: the store then holds the node
  \<open>n1\<close> exactly as the request gave it, and its metadata has no key \<open>domain\<close>.
\<close>

theorem created_node_lacks_domain:
  "map_option mem (Register exEmpty 0 exService ''d1'' 5) = Some exStore
   \<and> lookupNode exStore ''d1'' ''foo'' ''1.0.0'' ''n1'' = Some \<lparr>Node = exNode1, TTL = 5, LastSeen = 0\<rparr>
   \<and> fmlookup (NodeMetadata exNode1) ''domain'' = None"
  by (simp add: exStore_registered)
     (simp add: lookupNode_def lookupRecord_def exStore_def exRecord_def exNode1_def)

text \<open>
  C3 as stated fails on a mixed batch. In \<open>exStore\<close> the node \<open>n1\<close> has TTL 5
  and was last seen at 0. A call at time 100 with TTL 9 for \<open>n1\<close> and the new
  \<open>n2\<close> adds \<open>n2\<close> with TTL 9 and time 100 and leaves \<open>n1\<close> as it was.
\<close>

theorem mixed_batch_not_refreshed_counterexample:
  "nodeTiming (Register exStore 100 exService2 ''d1'' 9) ''d1'' ''foo'' ''1.0.0'' ''n1'' = Some (5, 0)
   \<and> nodeTiming (Register exStore 100 exService2 ''d1'' 9) ''d1'' ''foo'' ''1.0.0'' ''n2'' = Some (9, 100)
   \<and> lookupNode exStore ''d1'' ''foo'' ''1.0.0'' ''n2'' = None"
  by code_simp

text \<open>
  C3, amended. A \<open>Register\<close> call on an existing (domain, name, version) entry
  returns, and for every node of the request: if its id is not in the entry's
  node map, the id is stored afterwards with the call's TTL, the current time,
  the id and address of the first request node with that id and a copy of its
  metadata with \<open>domain\<close> set; if its id is in the node map, the stored node
  has its TTL and last-seen time set to the call's TTL and the current time
  when every id of the request is already in the map, and is unchanged when the
  call adds some id.
\<close>

theorem register_existing_nodes:
  assumes "lookupRecord m d (Name s) (Version s) = Some rec"
  shows "\<exists>e. Register m now s d ttl = Some e \<and>
     (\<forall>n\<in>set (Nodes s).
        (Id' n |\<notin>| fmdom (RNodes rec) \<longrightarrow>
           (\<exists>n'\<in>set (Nodes s). Id' n' = Id' n \<and>
              lookupNode (mem e) d (Name s) (Version s) (Id' n) =
                Some \<lparr> Node = \<lparr> Id' = Id' n, Address = Address n',
                                 NodeMetadata = fmupd ''domain'' d (NodeMetadata n') \<rparr>,
                        TTL = ttl, LastSeen = now \<rparr>)) \<and>
        (Id' n |\<in>| fmdom (RNodes rec) \<longrightarrow>
           lookupNode (mem e) d (Name s) (Version s) (Id' n) =
             (if \<forall>k\<in>set (Nodes s). Id' k |\<in>| fmdom (RNodes rec)
              then map_option (\<lambda>x. x\<lparr>TTL := ttl, LastSeen := now\<rparr>) (fmlookup (RNodes rec) (Id' n))
              else fmlookup (RNodes rec) (Id' n))))"
proof -
  from lookupRecord_SomeD[OF assms] obtain srvs versions where
    sv: "fmlookup (records m) d = Some srvs" "fmlookup srvs (Name s) = Some versions"
      "fmlookup versions (Version s) = Some rec" by blast
  from Register_existing[OF sv, of now ttl] obtain nodes' e where
    e: "Register m now s d ttl = Some e"
    and me: "mem e = m\<lparr>records := fmupd d
                       (fmupd (Name s) (fmupd (Version s) (rec\<lparr>RNodes := nodes'\<rparr>) versions) srvs)
                       (records m)\<rparr>"
    and l: "\<And>i. fmlookup nodes' i =
        (case fmlookup (RNodes rec) i of
           None \<Rightarrow> map_option (newNode d ttl now) (find (\<lambda>n. Id' n = i) (Nodes s))
         | Some x \<Rightarrow>
             if \<exists>n\<in>set (Nodes s). Id' n |\<notin>| fmdom (RNodes rec) then Some x
             else if i \<in> Id' ` set (Nodes s) then Some (refreshed ttl now x)
             else Some x)"
    by force
  have ln: "lookupNode (mem e) d (Name s) (Version s) i = fmlookup nodes' i" for i
    by (simp add: me lookupNode_def lookupRecord_def)
  have "\<forall>n\<in>set (Nodes s).
        (Id' n |\<notin>| fmdom (RNodes rec) \<longrightarrow>
           (\<exists>n'\<in>set (Nodes s). Id' n' = Id' n \<and>
              lookupNode (mem e) d (Name s) (Version s) (Id' n) =
                Some \<lparr> Node = \<lparr> Id' = Id' n, Address = Address n',
                                 NodeMetadata = fmupd ''domain'' d (NodeMetadata n') \<rparr>,
                        TTL = ttl, LastSeen = now \<rparr>)) \<and>
        (Id' n |\<in>| fmdom (RNodes rec) \<longrightarrow>
           lookupNode (mem e) d (Name s) (Version s) (Id' n) =
             (if \<forall>k\<in>set (Nodes s). Id' k |\<in>| fmdom (RNodes rec)
              then map_option (\<lambda>x. x\<lparr>TTL := ttl, LastSeen := now\<rparr>) (fmlookup (RNodes rec) (Id' n))
              else fmlookup (RNodes rec) (Id' n)))"
  proof (intro ballI conjI impI)
    fix n assume n: "n \<in> set (Nodes s)" and new: "Id' n |\<notin>| fmdom (RNodes rec)"
    from find_in_set[OF n] obtain n' where
      f: "find (\<lambda>k. Id' k = Id' n) (Nodes s) = Some n'" "n' \<in> set (Nodes s)" "Id' n' = Id' n"
      by blast
    have "fmlookup (RNodes rec) (Id' n) = None" using new by (simp add: fmdom_notD)
    then have "lookupNode (mem e) d (Name s) (Version s) (Id' n) = Some (newNode d ttl now n')"
      using f by (simp add: ln l)
    then show "\<exists>n'\<in>set (Nodes s). Id' n' = Id' n \<and>
              lookupNode (mem e) d (Name s) (Version s) (Id' n) =
                Some \<lparr> Node = \<lparr> Id' = Id' n, Address = Address n',
                                 NodeMetadata = fmupd ''domain'' d (NodeMetadata n') \<rparr>,
                        TTL = ttl, LastSeen = now \<rparr>"
      using f by (auto simp: newNode_def)
  next
    fix n assume n: "n \<in> set (Nodes s)" and old: "Id' n |\<in>| fmdom (RNodes rec)"
    then obtain x where x: "fmlookup (RNodes rec) (Id' n) = Some x"
      by (auto simp: fmlookup_dom_iff)
    show "lookupNode (mem e) d (Name s) (Version s) (Id' n) =
             (if \<forall>k\<in>set (Nodes s). Id' k |\<in>| fmdom (RNodes rec)
              then map_option (\<lambda>x. x\<lparr>TTL := ttl, LastSeen := now\<rparr>) (fmlookup (RNodes rec) (Id' n))
              else fmlookup (RNodes rec) (Id' n))"
      using n x by (auto simp: ln l refreshed_def)
  qed
  with e show ?thesis by blast
qed

theorem register_existing_nodes_witness:
  "lookupRecord exStore ''d1'' (Name exService) (Version exService) = Some exRecord
   \<and> nodeTiming (Register exStore 100 exService ''d1'' 9) ''d1'' ''foo'' ''1.0.0'' ''n1'' = Some (9, 100)"
proof -
  have h: "lookupRecord exStore ''d1'' (Name exService) (Version exService) = Some exRecord"
    by (simp add: lookupRecord_def exStore_def exService_def)
  from register_existing_nodes [OF h, of 100 9] obtain e where
    e: "Register exStore 100 exService ''d1'' 9 = Some e"
    and n: "\<forall>n\<in>set (Nodes exService).
        (Id' n |\<in>| fmdom (RNodes exRecord) \<longrightarrow>
           lookupNode (mem e) ''d1'' (Name exService) (Version exService) (Id' n) =
             (if \<forall>k\<in>set (Nodes exService). Id' k |\<in>| fmdom (RNodes exRecord)
              then map_option (\<lambda>x. x\<lparr>TTL := 9, LastSeen := 100\<rparr>) (fmlookup (RNodes exRecord) (Id' n))
              else fmlookup (RNodes exRecord) (Id' n)))"
    by blast
  from n have "lookupNode (mem e) ''d1'' ''foo'' ''1.0.0'' ''n1'' =
      Some \<lparr>Node = exNode1, TTL = 9, LastSeen = 100\<rparr>"
    by (simp add: exService_def exRecord_def exNode1_def)
  with e h show ?thesis by (simp add: nodeTiming_def)
qed

text \<open>
  C4 as stated fails on the creation path. Registering \<open>exService\<close> in the
  empty register puts the node \<open>n1\<close> into the store, where it was not before,
  and hands exactly one result to the dispatcher, the \<open>create\<close> one: there is
  no \<open>update\<close> result.
\<close>

theorem create_without_update_counterexample:
  "map_option events (Register exEmpty 0 exService ''d1'' 5) =
     Some [\<lparr>Action = ''create'', Service = Some (setDomain exService ''d1'')\<rparr>]
   \<and> lookupNode exEmpty ''d1'' ''foo'' ''1.0.0'' ''n1'' = None
   \<and> nodeTiming (Register exEmpty 0 exService ''d1'' 5) ''d1'' ''foo'' ''1.0.0'' ''n1'' = Some (5, 0)"
  by code_simp

text \<open>
  C4, amended. Every \<open>Register\<close> call returns. A call that creates a brand-new
  (domain, name, version) entry emits exactly one result, \<open>create\<close>, carrying
  the requested service with its \<open>domain\<close> metadata set, and no \<open>update\<close>
  even when the request has nodes; a call on an existing entry emits exactly
  one \<open>update\<close> result when some id of the request is not yet in the entry's
  node map, and nothing when all are.
\<close>

theorem register_events:
  "map_option events (Register m now s d ttl) =
     Some (case lookupRecord m d (Name s) (Version s) of
             None \<Rightarrow> [\<lparr>Action = ''create'', Service = Some (setDomain s d)\<rparr>]
           | Some rec \<Rightarrow>
               if \<exists>n\<in>set (Nodes s). Id' n |\<notin>| fmdom (RNodes rec)
               then [\<lparr>Action = ''update'', Service = Some (setDomain s d)\<rparr>]
               else [])"
proof (cases "lookupRecord m d (Name s) (Version s)")
  case None
  show ?thesis by (simp add: Register_new[OF None] None)
next
  case (Some rec)
  from lookupRecord_SomeD[OF Some] obtain srvs versions where
    "fmlookup (records m) d = Some srvs" "fmlookup srvs (Name s) = Some versions"
    "fmlookup versions (Version s) = Some rec" by blast
  from Register_existing[OF this, of now ttl] obtain e where
    "Register m now s d ttl = Some e"
    "events e = (if \<exists>n\<in>set (Nodes s). Id' n |\<notin>| fmdom (RNodes rec)
                 then [\<lparr>Action = ''update'', Service = Some (setDomain s d)\<rparr>] else [])"
    by force
  then show ?thesis by (simp add: Some)
qed

theorem register_events_witness:
  "map_option events (Register exStore 100 exService2 ''d1'' 9) =
     Some [\<lparr>Action = ''update'', Service = Some (setDomain exService2 ''d1'')\<rparr>]
   \<and> map_option events (Register exStore 100 exService ''d1'' 9) = Some []"
  using register_events [of exStore 100 exService2 "''d1''" 9]
    register_events [of exStore 100 exService "''d1''" 9]
  by (simp add: lookupRecord_def exStore_def exService_def exService2_def exRecord_def
        exNode1_def exNode2_def)

section \<open>Properties of Deregister\<close>

lemma removeNodes_lookup:
  "fmlookup (removeNodes ns nodes) i =
     (if i \<in> Id' ` set ns then None else fmlookup nodes i)"
proof (induction ns arbitrary: nodes)
  case Nil
  then show ?case by simp
next
  case (Cons n ns)
  then show ?case by (auto simp: fmdom_notD)
qed

lemma len_gt0_iff: "len m > 0 \<longleftrightarrow> m \<noteq> fmempty"
  using len_0_iff[of m] by auto

lemma len_upd_1_iff:
  assumes "k |\<in>| fmdom m"
  shows "len (fmupd k x m) = Suc 0 \<longleftrightarrow> fmdom m = {|k|}"
proof -
  have dom: "fmdom (fmupd k x m) = fmdom m" using assms by auto
  show ?thesis
  proof
    assume "len (fmupd k x m) = Suc 0"
    then have "card (fset (fmdom m)) = Suc 0" by (simp only: len_def fcard.rep_eq dom)
    then obtain y where "fset (fmdom m) = {y}" by (auto simp: card_1_singleton_iff)
    then have "fmdom m = {|y|}" by (metis bot_fset.rep_eq finsert.rep_eq fset_inject)
    with assms show "fmdom m = {|k|}" by auto
  next
    assume "fmdom m = {|k|}"
    then show "len (fmupd k x m) = Suc 0" by (simp add: len_def fcard_finsert_if)
  qed
qed

lemma Deregister_existing:
  assumes d: "fmlookup (records m) d = Some services"
    and n: "fmlookup services (Name s) = Some versions"
    and v: "fmlookup versions (Version s) = Some version"
  shows "Deregister m s d =
     (let nodes' = removeNodes (Nodes s) (RNodes version) in
      if nodes' \<noteq> fmempty then
        \<lparr> err = None,
          mem = m\<lparr>records := fmupd d
                   (fmupd (Name s) (fmupd (Version s) (version\<lparr>RNodes := nodes'\<rparr>) versions) services)
                   (records m)\<rparr>,
          svc = setDomain s d,
          events = [\<lparr>Action = ''update'', Service = Some (setDomain s d)\<rparr>] \<rparr>
      else if fmdom versions = {|Version s|} then
        \<lparr> err = None,
          mem = m\<lparr>records := fmupd d (fmdrop (Name s) services) (records m)\<rparr>,
          svc = setDomain s d,
          events = [\<lparr>Action = ''delete'', Service = Some (setDomain s d)\<rparr>] \<rparr>
      else
        \<lparr> err = None,
          mem = m\<lparr>records := fmupd d (fmupd (Name s) (fmdrop (Version s) versions) services)
                   (records m)\<rparr>,
          svc = setDomain s d,
          events = [\<lparr>Action = ''delete'', Service = Some (setDomain s d)\<rparr>] \<rparr>)"
proof -
  let ?version = "version\<lparr>RNodes := removeNodes (Nodes s) (RNodes version)\<rparr>"
  have pre: "Version s |\<in>| fmdom versions" using v by (simp add: fmdomI)
  show ?thesis
    using d n v
    by (simp add: Deregister_def Let_def len_gt0_iff len_upd_1_iff[OF pre] fmdrop_fmupd_same)
qed

text \<open>
  C5. For a \<open>Deregister\<close> call whose (domain, name, version) entry exists, the
  node map of the version loses exactly the listed ids. If it is still
  non-empty, the entry stays, with the reduced node map, and one \<open>update\<close>
  result is emitted; if it is empty and the version was the only one of the
  service, the whole service entry is removed and one \<open>delete\<close> result is
  emitted; if it is empty and the service has other versions, only this
  version is removed and one \<open>delete\<close> result is emitted. Nothing else in
  the store changes.
\<close>

theorem deregister_existing_entry:
  assumes "fmlookup (records m) d = Some services"
    and "fmlookup services (Name s) = Some versions"
    and "fmlookup versions (Version s) = Some version"
  shows "(\<forall>i. fmlookup (removeNodes (Nodes s) (RNodes version)) i =
             (if i \<in> Id' ` set (Nodes s) then None else fmlookup (RNodes version) i)) \<and>
     Deregister m s d =
       (let nodes' = removeNodes (Nodes s) (RNodes version) in
        if nodes' \<noteq> fmempty then
          \<lparr> err = None,
            mem = m\<lparr>records := fmupd d
                     (fmupd (Name s) (fmupd (Version s) (version\<lparr>RNodes := nodes'\<rparr>) versions) services)
                     (records m)\<rparr>,
            svc = setDomain s d,
            events = [\<lparr>Action = ''update'', Service = Some (setDomain s d)\<rparr>] \<rparr>
        else if fmdom versions = {|Version s|} then
          \<lparr> err = None,
            mem = m\<lparr>records := fmupd d (fmdrop (Name s) services) (records m)\<rparr>,
            svc = setDomain s d,
            events = [\<lparr>Action = ''delete'', Service = Some (setDomain s d)\<rparr>] \<rparr>
        else
          \<lparr> err = None,
            mem = m\<lparr>records := fmupd d (fmupd (Name s) (fmdrop (Version s) versions) services)
                     (records m)\<rparr>,
            svc = setDomain s d,
            events = [\<lparr>Action = ''delete'', Service = Some (setDomain s d)\<rparr>] \<rparr>)"
  using Deregister_existing[OF assms] by (simp only: removeNodes_lookup simp_thms)

theorem deregister_existing_entry_witness:
  "fmlookup (records exStore) ''d1'' = Some (fmupd ''foo'' (fmupd ''1.0.0'' exRecord fmempty) fmempty)
   \<and> fmlookup (fmupd ''foo'' (fmupd ''1.0.0'' exRecord fmempty) fmempty) (Name exService)
       = Some (fmupd ''1.0.0'' exRecord fmempty)
   \<and> fmlookup (fmupd ''1.0.0'' exRecord fmempty) (Version exService) = Some exRecord
   \<and> Deregister exStore exService ''d1'' =
       \<lparr> err = None,
         mem = \<lparr>records = fmupd ''d1'' fmempty fmempty\<rparr>,
         svc = setDomain exService ''d1'',
         events = [\<lparr>Action = ''delete'', Service = Some (setDomain exService ''d1'')\<rparr>] \<rparr>"
proof -
  have h1: "fmlookup (records exStore) ''d1''
      = Some (fmupd ''foo'' (fmupd ''1.0.0'' exRecord fmempty) fmempty)"
    by (simp add: exStore_def)
  have h2: "fmlookup (fmupd ''foo'' (fmupd ''1.0.0'' exRecord fmempty) fmempty) (Name exService)
      = Some (fmupd ''1.0.0'' exRecord fmempty)"
    by (simp add: exService_def)
  have h3: "fmlookup (fmupd ''1.0.0'' exRecord fmempty) (Version exService) = Some exRecord"
    by (simp add: exService_def)
  have r: "removeNodes (Nodes exService) (RNodes exRecord) = fmempty"
    by (rule fmap_ext) (simp add: removeNodes_lookup exService_def exRecord_def exNode1_def)
  have e: "fmdrop ''foo'' (fmupd ''foo'' (fmupd ''1.0.0'' exRecord fmempty) fmempty) = fmempty"
    by (rule fmap_ext) simp
  show ?thesis
    using h1 h2 h3 deregister_existing_entry [OF h1 h2 h3]
    by (simp add: r) (simp add: exService_def exStore_def e)
qed

lemma lookupRecord_None_iff:
  "lookupRecord m d n v = None \<longleftrightarrow>
     fmlookup (records m) d = None \<or>
     (\<exists>services. fmlookup (records m) d = Some services \<and>
        (fmlookup services n = None \<or>
         (\<exists>versions. fmlookup services n = Some versions \<and> fmlookup versions v = None)))"
  by (auto simp: lookupRecord_def split: option.splits)

text \<open>
  C6. A \<open>Deregister\<close> call that names a domain, a service name or a version
  that the store does not hold returns the nil error, leaves the store as it
  was and emits nothing.
\<close>

theorem deregister_missing_target:
  assumes "lookupRecord m d (Name s) (Version s) = None"
  shows "err (Deregister m s d) = None \<and> mem (Deregister m s d) = m \<and> events (Deregister m s d) = []"
  using assms by (auto simp: Deregister_def Let_def lookupRecord_def split: option.splits)

theorem deregister_missing_target_witness:
  "lookupRecord exStore ''d1'' (Name exService) (Version (exService\<lparr>Version := ''2.0.0''\<rparr>)) = None
   \<and> err (Deregister exStore (exService\<lparr>Version := ''2.0.0''\<rparr>) ''d1'') = None
   \<and> mem (Deregister exStore (exService\<lparr>Version := ''2.0.0''\<rparr>) ''d1'') = exStore
   \<and> lookupRecord exStore ''d2'' (Name exService) (Version exService) = None
   \<and> mem (Deregister exStore exService ''d2'') = exStore"
proof -
  have h1: "lookupRecord exStore ''d1'' (Name (exService\<lparr>Version := ''2.0.0''\<rparr>))
      (Version (exService\<lparr>Version := ''2.0.0''\<rparr>)) = None"
    by (simp add: lookupRecord_def exStore_def exService_def)
  have h2: "lookupRecord exStore ''d2'' (Name exService) (Version exService) = None"
    by (simp add: lookupRecord_def exStore_def)
  show ?thesis
    using h1 h2 deregister_missing_target [OF h1] deregister_missing_target [OF h2] by simp
qed

section \<open>Properties of the TTL sweep\<close>

lemma pruneNodes_lookup:
  "fmlookup (pruneNodes now nodes) i =
     (case fmlookup nodes i of
        None \<Rightarrow> None
      | Some x \<Rightarrow> if expired now x then None else Some x)"
  by (simp add: pruneNodes_def split: option.splits)

lemma ttlPruneTick_lookupRecord:
  "lookupRecord (fst (ttlPruneTick now m)) d n v =
     map_option (\<lambda>r. r\<lparr>RNodes := pruneNodes now (RNodes r)\<rparr>) (lookupRecord m d n v)"
  by (simp add: ttlPruneTick_def lookupRecord_def split: option.splits)

text \<open>
  C7. One tick of the reaper at time \<open>now\<close> deletes a stored node exactly
  when its TTL is non-zero and the time since it was last seen exceeds the TTL
  (so a node with TTL 0 stays); it emits no result; and the store keeps the
  same domains, the same service names in every domain and the same version
  entries, each with its name, version, metadata and endpoints unchanged, also
  when its node map has become empty.
\<close>

theorem ttl_prune_tick:
  "lookupNode (fst (ttlPruneTick now m)) d n v i =
     (case lookupNode m d n v i of
        None \<Rightarrow> None
      | Some x \<Rightarrow> if TTL x \<noteq> 0 \<and> now - LastSeen x > TTL x then None else Some x)
   \<and> snd (ttlPruneTick now m) = []
   \<and> fmdom (records (fst (ttlPruneTick now m))) = fmdom (records m)
   \<and> map_option fmdom (fmlookup (records (fst (ttlPruneTick now m))) d)
       = map_option fmdom (fmlookup (records m) d)
   \<and> map_option (\<lambda>r. (RName r, RVersion r, RMetadata r, REndpoints r))
         (lookupRecord (fst (ttlPruneTick now m)) d n v)
       = map_option (\<lambda>r. (RName r, RVersion r, RMetadata r, REndpoints r)) (lookupRecord m d n v)"
proof (intro conjI)
  show "lookupNode (fst (ttlPruneTick now m)) d n v i =
     (case lookupNode m d n v i of
        None \<Rightarrow> None
      | Some x \<Rightarrow> if TTL x \<noteq> 0 \<and> now - LastSeen x > TTL x then None else Some x)"
    by (simp add: lookupNode_def ttlPruneTick_lookupRecord pruneNodes_lookup expired_def
          split: option.splits)
  show "snd (ttlPruneTick now m) = []"
    by (simp add: ttlPruneTick_def)
  show "fmdom (records (fst (ttlPruneTick now m))) = fmdom (records m)"
    by (simp add: ttlPruneTick_def)
  show "map_option fmdom (fmlookup (records (fst (ttlPruneTick now m))) d)
       = map_option fmdom (fmlookup (records m) d)"
    by (simp add: ttlPruneTick_def option.map_comp comp_def)
  show "map_option (\<lambda>r. (RName r, RVersion r, RMetadata r, REndpoints r))
         (lookupRecord (fst (ttlPruneTick now m)) d n v)
       = map_option (\<lambda>r. (RName r, RVersion r, RMetadata r, REndpoints r)) (lookupRecord m d n v)"
    by (simp add: ttlPruneTick_lookupRecord option.map_comp comp_def)
qed

theorem ttl_prune_tick_witness:
  "lookupNode (fst (ttlPruneTick 100 exStore)) ''d1'' ''foo'' ''1.0.0'' ''n1'' = None
   \<and> lookupNode (fst (ttlPruneTick 5 exStore)) ''d1'' ''foo'' ''1.0.0'' ''n1''
       = Some \<lparr>Node = exNode1, TTL = 5, LastSeen = 0\<rparr>
   \<and> map_option (\<lambda>r. (RName r, RVersion r, RMetadata r, REndpoints r))
         (lookupRecord (fst (ttlPruneTick 100 exStore)) ''d1'' ''foo'' ''1.0.0'')
       = Some (''foo'', ''1.0.0'', fmupd ''domain'' ''d1'' fmempty, [])"
  using ttl_prune_tick [of 100 exStore "''d1''" "''foo''" "''1.0.0''" "''n1''"]
    ttl_prune_tick [of 5 exStore "''d1''" "''foo''" "''1.0.0''" "''n1''"]
  by (simp add: lookupNode_def lookupRecord_def exStore_def exRecord_def)

section \<open>Properties of lookup and list\<close>

lemma validOrder_set: "validOrder ord \<Longrightarrow> set (ord S) = fset S"
  by (metis validOrder_def fset_of_list.rep_eq)

lemma validOrder_sorted: "validOrder sorted_list_of_fset"
  by (simp add: validOrder_def sorted_list_of_fset.rep_eq fset_of_list_elem fset_eqI)

lemma map_filter_keys:
  "\<forall>k\<in>set ks. k |\<in>| fmdom m \<Longrightarrow>
   map fst (List.map_filter (\<lambda>k. map_option (Pair k) (fmlookup m k)) ks) = ks"
proof (induction ks)
  case Nil
  then show ?case by (simp add: List.map_filter_simps)
next
  case (Cons k ks)
  then obtain x where "fmlookup m k = Some x" by (auto simp: fmlookup_dom_iff)
  with Cons show ?case by (simp add: List.map_filter_simps)
qed

lemma rangeMap_keys:
  assumes "validOrder ord"
  shows "map fst (rangeMap ord m) = ord (fmdom m)"
  unfolding rangeMap_def
  by (rule map_filter_keys) (simp add: validOrder_set[OF assms])

lemma lookupDomains_fanOut:
  "map look ds = map Some rs \<Longrightarrow>
   lookupDomains look ds acc =
     Some (case List.map_filter otherError rs of
             e # es \<Rightarrow> Inl e
           | [] \<Rightarrow> if acc @ concat (map found rs) = [] then Inl ErrNotFound
                   else Inr (acc @ concat (map found rs)))"
proof (induction ds arbitrary: rs acc)
  case Nil
  then show ?case by (simp add: List.map_filter_simps)
next
  case (Cons d ds)
  then obtain r rs' where rs: "rs = r # rs'" "look d = Some r" "map look ds = map Some rs'"
    by (cases rs) auto
  show ?case
  proof (cases r)
    case (Inl e)
    show ?thesis
    proof (cases "e = ErrNotFound")
      case True
      then show ?thesis
        unfolding rs(1) Inl using rs(2) Inl Cons.IH[OF rs(3), of acc]
        by (simp add: List.map_filter_simps cong: list.case_cong)
    next
      case False
      then show ?thesis
        unfolding rs(1) Inl using rs(2) Inl by (simp add: List.map_filter_simps)
    qed
  next
    case (Inr srvs)
    show ?thesis
      unfolding rs(1) Inr using rs(2) Inr Cons.IH[OF rs(3), of "acc @ srvs"]
      by (simp add: List.map_filter_simps cong: list.case_cong)
  qed
qed

lemma lookupDomains_None:
  "d0 \<in> set ds \<Longrightarrow> look d0 = None \<Longrightarrow>
   \<forall>d\<in>set ds. \<forall>e. look d = Some (Inl e) \<longrightarrow> e = ErrNotFound \<Longrightarrow>
   lookupDomains look ds acc = None"
proof (induction ds arbitrary: acc)
  case Nil
  then show ?case by simp
next
  case (Cons d ds)
  show ?case
  proof (cases "look d")
    case None
    then show ?thesis by simp
  next
    case (Some r)
    then have "d0 \<in> set ds" using Cons.prems by auto
    then have ih: "lookupDomains look ds acc' = None" for acc'
      using Cons.IH Cons.prems by auto
    show ?thesis
    proof (cases r)
      case (Inl e)
      then have "e = ErrNotFound" using Some Cons.prems(3) by auto
      then show ?thesis using Some Inl ih by simp
    next
      case (Inr srvs)
      then show ?thesis using Some ih by simp
    qed
  qed
qed

lemma LookupService_single_error:
  "domain \<noteq> WildcardDomain \<Longrightarrow> LookupService fuel ord m name domain = Some (Inl e) \<Longrightarrow>
   e = ErrNotFound"
  by (cases fuel) (auto split: option.splits if_splits)

lemma LookupService_single_returns:
  "domain \<noteq> WildcardDomain \<Longrightarrow> \<exists>r. LookupService (Suc fuel) ord m name domain = Some r"
  by simp

lemma LookupService_wildcard:
  "validOrder ord \<Longrightarrow>
   LookupService (Suc fuel) ord m name WildcardDomain =
     lookupDomains (LookupService fuel ord m name) (ord (fmdom (records m))) []"
  by (simp add: rangeMap_keys)

lemma lookup_wildcard_never_returns:
  assumes "validOrder ord" and "WildcardDomain |\<in>| fmdom (records m)"
  shows "LookupService fuel ord m name WildcardDomain = None"
proof (induction fuel)
  case 0
  then show ?case by simp
next
  case (Suc fuel)
  let ?look = "\<lambda>domain. LookupService fuel ord m name domain"
  have mem: "WildcardDomain \<in> set (ord (fmdom (records m)))"
    using assms by (simp add: validOrder_set)
  have errs: "\<forall>d\<in>set (ord (fmdom (records m))). \<forall>e. ?look d = Some (Inl e) \<longrightarrow> e = ErrNotFound"
    using Suc LookupService_single_error by (metis option.distinct(1))
  have "lookupDomains ?look (ord (fmdom (records m))) [] = None"
    by (rule lookupDomains_None[OF mem Suc errs])
  then show ?case by (simp only: LookupService_wildcard[OF assms(1)])
qed

lemma exWild_registered:
  "map_option mem (Register exEmpty 0 exService WildcardDomain 5) = Some exWild"
  by code_simp

text \<open>
  C8 as stated fails when a domain is stored under the wildcard value itself.
  \<open>Register\<close> accepts that domain (\<open>exWild\<close> is the store it produces from the
  empty register); the wildcard lookup then calls itself for the stored domain
  \<open>*\<close>, which is again a wildcard lookup, and no depth of calls is enough for it
  to return: neither the service \<open>foo\<close> that the store holds nor "not found"
  is returned.
\<close>

theorem wildcard_domain_stored_counterexample:
  "\<not> (\<exists>fuel r. LookupService fuel sorted_list_of_fset exWild ''foo'' WildcardDomain = Some r)"
proof -
  have "WildcardDomain |\<in>| fmdom (records exWild)" by (simp add: exWild_def)
  from lookup_wildcard_never_returns[OF validOrder_sorted this] show ?thesis by simp
qed

text \<open>
  C8, amended. When no domain is stored under the wildcard value itself, a
  lookup with the wildcard domain returns (two levels of calls suffice): the
  call for each stored domain returns, every stored domain is queried once,
  and the result is \<open>fanOut\<close> of the per-domain results in the order of the
  queries: "not found" results are skipped, another error is returned as it
  is, the services found are concatenated, and "not found" is returned exactly
  when no domain yielded a service.
\<close>

theorem lookup_wildcard_fan_out:
  assumes "validOrder ord" and "WildcardDomain |\<notin>| fmdom (records m)"
  shows "\<exists>rs. map (\<lambda>domain. LookupService (Suc fuel) ord m name domain) (ord (fmdom (records m)))
               = map Some rs
     \<and> distinct (ord (fmdom (records m)))
     \<and> set (ord (fmdom (records m))) = fset (fmdom (records m))
     \<and> LookupService (Suc (Suc fuel)) ord m name WildcardDomain = Some (fanOut rs)"
proof -
  let ?ds = "ord (fmdom (records m))"
  let ?look = "\<lambda>domain. LookupService (Suc fuel) ord m name domain"
  have nw: "\<forall>d\<in>set ?ds. d \<noteq> WildcardDomain"
    using assms by (auto simp: validOrder_set)
  have "map ?look ?ds = map Some (map (\<lambda>d. the (?look d)) ?ds)"
    using nw by simp
  then obtain rs where rs: "map ?look ?ds = map Some rs" by blast
  have "LookupService (Suc (Suc fuel)) ord m name WildcardDomain = lookupDomains ?look ?ds []"
    by (rule LookupService_wildcard[OF assms(1)])
  also have "\<dots> =
     Some (case List.map_filter otherError rs of
             e # es \<Rightarrow> Inl e
           | [] \<Rightarrow> if [] @ concat (map found rs) = [] then Inl ErrNotFound
                   else Inr ([] @ concat (map found rs)))"
    by (rule lookupDomains_fanOut[OF rs])
  also have "\<dots> = Some (fanOut rs)"
    by (simp add: fanOut_def cong: list.case_cong)
  finally have "LookupService (Suc (Suc fuel)) ord m name WildcardDomain = Some (fanOut rs)" .
  moreover have "distinct ?ds" using assms(1) by (simp add: validOrder_def)
  moreover have "set ?ds = fset (fmdom (records m))" by (rule validOrder_set[OF assms(1)])
  ultimately show ?thesis using rs by blast
qed

theorem lookup_wildcard_fan_out_witness:
  "validOrder sorted_list_of_fset
   \<and> WildcardDomain |\<notin>| fmdom (records exStore)
   \<and> (\<exists>rs. map (\<lambda>domain. LookupService (Suc 0) sorted_list_of_fset exStore ''foo'' domain)
              (sorted_list_of_fset (fmdom (records exStore))) = map Some rs
        \<and> LookupService (Suc (Suc 0)) sorted_list_of_fset exStore ''foo'' WildcardDomain
            = Some (fanOut rs))
   \<and> LookupService (Suc (Suc 0)) sorted_list_of_fset exStore ''foo'' WildcardDomain
       = Some (Inr [\<lparr> Name = ''foo'', Version = ''1.0.0'',
                       Metadata = Some (fmupd ''domain'' ''d1'' fmempty),
                       Endpoints = [], Nodes = [exNode1] \<rparr>])
   \<and> LookupService (Suc (Suc 0)) sorted_list_of_fset exStore ''bar'' WildcardDomain
       = Some (Inl ErrNotFound)"
proof -
  have h2: "WildcardDomain |\<notin>| fmdom (records exStore)"
    by (simp add: exStore_def WildcardDomain_def)
  have c1: "LookupService (Suc (Suc 0)) sorted_list_of_fset exStore ''foo'' WildcardDomain
       = Some (Inr [\<lparr> Name = ''foo'', Version = ''1.0.0'',
                       Metadata = Some (fmupd ''domain'' ''d1'' fmempty),
                       Endpoints = [], Nodes = [exNode1] \<rparr>])"
    by code_simp
  have c2: "LookupService (Suc (Suc 0)) sorted_list_of_fset exStore ''bar'' WildcardDomain
       = Some (Inl ErrNotFound)"
    by code_simp
  from lookup_wildcard_fan_out [OF validOrder_sorted h2, of 0 "''foo''"]
  show ?thesis using validOrder_sorted h2 c1 c2 by blast
qed

text \<open>
  C1, at a concrete input. \<open>exStore\<close> holds the service \<open>foo\<close> under the
  domain \<open>d1\<close>. Listing the domain \<open>d1\<close> returns that service with the
  metadata entry \<open>domain\<close> equal to \<open>foo\<close>, the service name, and not to
  \<open>d1\<close>; the lookup of the same service by name returns it with \<open>d1\<close>.
\<close>

theorem list_domain_is_service_name:
  "ListServices (Suc 0) sorted_list_of_fset exStore ''d1''
     = Some (Inr [\<lparr> Name = ''foo'', Version = ''1.0.0'',
                     Metadata = Some (fmupd ''domain'' ''foo'' fmempty),
                     Endpoints = [], Nodes = [exNode1] \<rparr>])
   \<and> LookupService (Suc 0) sorted_list_of_fset exStore ''foo'' ''d1''
     = Some (Inr [\<lparr> Name = ''foo'', Version = ''1.0.0'',
                     Metadata = Some (fmupd ''domain'' ''d1'' fmempty),
                     Endpoints = [], Nodes = [exNode1] \<rparr>])"
  by code_simp

section \<open>Properties of the watcher\<close>

lemma Stop_eq: "Stop w = Some (w\<lparr>exit := True\<rparr>)"
  by (simp add: Stop_def stopStep_def closeChan_def)

lemma Stop_again: "Stop w = Some w1 \<Longrightarrow> exit w1 \<and> Stop w1 = Some w1"
  by (auto simp: Stop_eq)

lemma stopTwo_one_after_the_other:
  "stopTwo [True, True, False, False] w AtSelect AtSelect
     = Some (w\<lparr>exit := True\<rparr>, Returned, Returned)"
  by (simp add: stopStep_def closeChan_def)

lemma Next_stopped_outcomes:
  "Next w out \<Longrightarrow> exit w \<Longrightarrow>
   exit (snd out) \<and>
   (fst out = Inl (ErrorsNew ''watcher stopped'') \<or>
    (\<exists>r\<in>set (res w). passes (wo w) r \<and> fst out = Inr r))"
proof (induction rule: Next.induct)
  case (stopped w)
  then show ?case by simp
next
  case (deliver w r rs)
  then show ?case by simp
next
  case (skip w r rs out)
  then show ?case by auto
qed

lemma Next_stopped_nothing_pending:
  assumes "Next w (out, w')" and "exit w" and "\<forall>r\<in>set (res w). \<not> passes (wo w) r"
  shows "out = Inl (ErrorsNew ''watcher stopped'') \<and> exit w'"
  using Next_stopped_outcomes[OF assms(1,2)] assms(3) by auto

text \<open>
  C9, at two concrete inputs. The claim: \<open>Stop\<close> is idempotent, second and
  later calls neither panic nor close the channel twice, and after \<open>Stop\<close>
  every \<open>Next\<close> call fails with "watcher stopped". Calls of \<open>Stop\<close> that run
  one after the other do behave so (\<open>Stop_eq\<close>, \<open>Stop_again\<close>), and so does
  \<open>Next\<close> when no passing result is pending (\<open>Next_stopped_nothing_pending\<close>).
  But two calls of \<open>Stop\<close> on the active watcher \<open>exIdle\<close> that both take
  the default case of the \<open>select\<close> before either closes the channel end in
  the panic of the second \<open>close\<close>. And when a sender has passed its check of
  \<open>exit\<close> and offers \<open>exResult\<close> to \<open>exIdle\<close>, a \<open>Stop\<close> followed by
  \<open>Next\<close> may return that result with no error: both cases of the
  \<open>select\<close> in \<open>Next\<close> can proceed.
\<close>

theorem stop_close_race_next_delivers:
  "stopTwo [True, False, True, False] exIdle AtSelect AtSelect = None
   \<and> sendOffer exIdle exResult = Some exWatcher
   \<and> Stop exWatcher = Some (exWatcher\<lparr>exit := True\<rparr>)
   \<and> Next (exWatcher\<lparr>exit := True\<rparr>) (Inr exResult, exWatcher\<lparr>exit := True, res := []\<rparr>)"
proof (intro conjI)
  show "stopTwo [True, False, True, False] exIdle AtSelect AtSelect = None"
    by (simp add: stopStep_def closeChan_def exIdle_def exWatcher_def)
  show "sendOffer exIdle exResult = Some exWatcher"
    by (simp add: sendOffer_def exIdle_def exWatcher_def)
  show "Stop exWatcher = Some (exWatcher\<lparr>exit := True\<rparr>)"
    by (rule Stop_eq)
  have "passes (wo (exWatcher\<lparr>exit := True\<rparr>)) exResult"
    by (simp add: passes_def exWatcher_def exResult_def exService_def)
  moreover have "res (exWatcher\<lparr>exit := True\<rparr>) = exResult # []"
    by (simp add: exWatcher_def)
  ultimately have
    "Next (exWatcher\<lparr>exit := True\<rparr>) (Inr exResult, exWatcher\<lparr>exit := True\<rparr>\<lparr>res := []\<rparr>)"
    by (rule Next.deliver[rotated])
  then show
    "Next (exWatcher\<lparr>exit := True\<rparr>) (Inr exResult, exWatcher\<lparr>exit := True, res := []\<rparr>)"
    by simp
qed

end
